theory Spec2Isabelle
  imports Main "HOL-Library.Word"
begin

section \<open>The checkpoint registry of src/checkpoints/checkpoints.cpp\<close>

text \<open>
  A shallow embedding of the class \<open>cryptonote::checkpoints\<close>. The two members
  \<open>m_points\<close> and \<open>m_difficulty_points\<close> are \<open>std::map\<close>s keyed by a
  \<open>uint64_t\<close> height; every member function becomes a function that takes the
  registry and, where the C++ mutates it, returns the new registry beside the
  \<open>bool\<close> result.
\<close>

subsection \<open>\<open>std::map\<close> as a key-ordered association list\<close>

text \<open>
  A \<open>std::map\<close> keeps its entries in strictly increasing key order. It is modelled
  by the list of its entries in iteration order; \<open>map_sorted\<close> is the representation
  invariant. An iterator is the index of its entry, \<open>end()\<close> the length of the list.
\<close>

type_synonym ('k, 'v) std_map = "('k \<times> 'v) list"

definition map_sorted :: "('k::linorder, 'v) std_map \<Rightarrow> bool" where
  "map_sorted m = sorted_wrt (<) (map fst m)"

text \<open>\<open>m.find(k)\<close>, \<open>m.count(k)\<close> and \<open>m.at(k)\<close> all read \<open>map_of m k\<close>.\<close>

definition map_count :: "'k \<Rightarrow> ('k, 'v) std_map \<Rightarrow> nat" where
  "map_count k m = (case map_of m k of None \<Rightarrow> 0 | Some _ \<Rightarrow> 1)"

text \<open>\<open>m[k] = v\<close>: overwrite the entry at \<open>k\<close>, or insert it at its place in the order.\<close>

fun map_assign :: "'k::linorder \<Rightarrow> 'v \<Rightarrow> ('k, 'v) std_map \<Rightarrow> ('k, 'v) std_map" where
  "map_assign k v [] = [(k, v)]"
| "map_assign k v (p # m) =
     (if k < fst p then (k, v) # p # m
      else if k = fst p then (k, v) # m
      else p # map_assign k v m)"

text \<open>\<open>m.upper_bound(k)\<close>: the iterator to the first entry whose key is greater than \<open>k\<close>.\<close>

definition upper_bound :: "'k::linorder \<Rightarrow> ('k, 'v) std_map \<Rightarrow> nat" where
  "upper_bound k m = length (takeWhile (\<lambda>p. fst p \<le> k) m)"

subsection \<open>Hashes, difficulties and their parsers\<close>

type_synonym crypto_hash = "8 word list"

type_synonym difficulty_type = nat

text \<open>A hexadecimal digit in either case, and a string of digit pairs as bytes.\<close>

fun hex_digit :: "char \<Rightarrow> nat option" where
  "hex_digit c =
     (let n = (of_char c :: nat) in
      if 48 \<le> n \<and> n \<le> 57 then Some (n - 48)
      else if 97 \<le> n \<and> n \<le> 102 then Some (n - 87)
      else if 65 \<le> n \<and> n \<le> 70 then Some (n - 55)
      else None)"

fun hex_bytes :: "string \<Rightarrow> 8 word list option" where
  "hex_bytes [] = Some []"
| "hex_bytes [c] = None"
| "hex_bytes (c1 # c2 # cs) =
     (case hex_digit c1 of None \<Rightarrow> None
      | Some a \<Rightarrow>
        (case hex_digit c2 of None \<Rightarrow> None
         | Some b \<Rightarrow>
           (case hex_bytes cs of None \<Rightarrow> None
            | Some bs \<Rightarrow> Some (word_of_nat (16 * a + b) # bs))))"

text \<open>
  Modelled from the spec: \<open>epee::string_tools::hex_to_pod\<close> for a \<open>crypto::hash\<close>
  (string_tools.h is not part of the sources at hand). The spec's hash encoding is a
  32-byte value written as exactly 64 hexadecimal characters, upper or lower case; any
  other string is a parse failure.
\<close>

definition hex_to_pod :: "string \<Rightarrow> crypto_hash option" where
  "hex_to_pod hash_str = (if length hash_str = 64 then hex_bytes hash_str else None)"

text \<open>Decimal digits, read from the left into an accumulator.\<close>

fun digit_val :: "char \<Rightarrow> nat option" where
  "digit_val c =
     (let n = (of_char c :: nat) in
      if 48 \<le> n \<and> n \<le> 57 then Some (n - 48) else None)"

fun decimal_digits :: "string \<Rightarrow> nat \<Rightarrow> nat option" where
  "decimal_digits [] acc = Some acc"
| "decimal_digits (c # cs) acc =
     (case digit_val c of None \<Rightarrow> None
      | Some d \<Rightarrow> decimal_digits cs (10 * acc + d))"

text \<open>
  Modelled from the spec: the constructor \<open>difficulty_type(difficulty_str)\<close>
  (the type is declared in cryptonote_basic/difficulty.h, not part of the sources at
  hand). The spec's difficulty encoding is a decimal string representing a non-negative
  arbitrary-precision integer; \<open>None\<close> stands for the exception the constructor throws.
\<close>

definition difficulty_of_string :: "string \<Rightarrow> difficulty_type option" where
  "difficulty_of_string difficulty_str =
     (if difficulty_str = [] then None else decimal_digits difficulty_str 0)"

subsection \<open>The registry\<close>

record checkpoints =
  m_points :: "(64 word, crypto_hash) std_map"
  m_difficulty_points :: "(64 word, difficulty_type) std_map"

text \<open>The constructor \<open>checkpoints::checkpoints()\<close>: both maps empty.\<close>

definition checkpoints_init :: checkpoints where
  "checkpoints_init = \<lparr>m_points = [], m_difficulty_points = []\<rparr>"

definition checkpoints_wf :: "checkpoints \<Rightarrow> bool" where
  "checkpoints_wf s = (map_sorted (m_points s) \<and> map_sorted (m_difficulty_points s))"

text \<open>
  \<open>add_checkpoint\<close> (lines 79-109). \<open>CHECK_AND_ASSERT_MES(c, false, ...)\<close> returns
  \<open>false\<close> from the function when \<open>c\<close> fails; the \<open>catch (...)\<close> branch is the
  \<open>None\<close> case of the difficulty parser. The hash is stored (line 90) before the
  difficulty string is looked at.
\<close>

definition add_checkpoint ::
  "64 word \<Rightarrow> string \<Rightarrow> string \<Rightarrow> checkpoints \<Rightarrow> bool \<times> checkpoints" where
  "add_checkpoint ht hash_str difficulty_str s =
     (case hex_to_pod hash_str of
        None \<Rightarrow> (False, s)
      | Some h \<Rightarrow>
          if map_count ht (m_points s) \<noteq> 0 \<and> map_of (m_points s) ht \<noteq> Some h
          then (False, s)
          else
            let s1 = s\<lparr>m_points := map_assign ht h (m_points s)\<rparr> in
            if difficulty_str \<noteq> [] then
              (case difficulty_of_string difficulty_str of
                 None \<Rightarrow> (False, s1)
               | Some difficulty \<Rightarrow>
                   if map_count ht (m_difficulty_points s1) \<noteq> 0
                      \<and> map_of (m_difficulty_points s1) ht \<noteq> Some difficulty
                   then (False, s1)
                   else (True, s1\<lparr>m_difficulty_points :=
                           map_assign ht difficulty (m_difficulty_points s1)\<rparr>))
            else (True, s1))"

text \<open>\<open>is_in_checkpoint_zone\<close> (lines 111-114); \<open>--m_points.end()\<close> is the last entry.\<close>

definition is_in_checkpoint_zone :: "checkpoints \<Rightarrow> 64 word \<Rightarrow> bool" where
  "is_in_checkpoint_zone s ht = (m_points s \<noteq> [] \<and> ht \<le> fst (last (m_points s)))"

text \<open>
  \<open>check_block\<close> (lines 116-133): the pair is the returned \<open>bool\<close> and the out
  parameter \<open>is_a_checkpoint\<close>.
\<close>

definition check_block :: "checkpoints \<Rightarrow> 64 word \<Rightarrow> crypto_hash \<Rightarrow> bool \<times> bool" where
  "check_block s ht h =
     (case map_of (m_points s) ht of
        None \<Rightarrow> (True, False)
      | Some stored \<Rightarrow> if stored = h then (True, True) else (False, True))"

text \<open>\<open>is_alternative_block_allowed\<close> (lines 142-155).\<close>

definition is_alternative_block_allowed :: "checkpoints \<Rightarrow> 64 word \<Rightarrow> 64 word \<Rightarrow> bool" where
  "is_alternative_block_allowed s blockchain_height block_height =
     (if 0 = block_height then False
      else
        let it = upper_bound blockchain_height (m_points s) in
        if it = 0 then True
        else
          let checkpoint_height = fst (m_points s ! (it - 1)) in
          checkpoint_height < block_height)"

text \<open>\<open>get_max_height\<close> (lines 157-162); \<open>rbegin()\<close> is the last entry.\<close>

definition get_max_height :: "checkpoints \<Rightarrow> 64 word" where
  "get_max_height s = (if m_points s = [] then 0 else fst (last (m_points s)))"

text \<open>
  \<open>check_for_conflicts\<close> (lines 174-184): the loop runs over the entries of
  \<open>other.get_points()\<close> and leaves with \<open>false\<close> at the first mismatch.
\<close>

fun check_for_conflicts_loop ::
  "(64 word, crypto_hash) std_map \<Rightarrow> (64 word \<times> crypto_hash) list \<Rightarrow> bool" where
  "check_for_conflicts_loop m [] = True"
| "check_for_conflicts_loop m (pt # pts) =
     (if map_count (fst pt) m \<noteq> 0 \<and> map_of m (fst pt) \<noteq> Some (snd pt) then False
      else check_for_conflicts_loop m pts)"

definition check_for_conflicts :: "checkpoints \<Rightarrow> checkpoints \<Rightarrow> bool" where
  "check_for_conflicts s other = check_for_conflicts_loop (m_points s) (m_points other)"

subsection \<open>The ingestion pipeline\<close>

text \<open>
  Modelled from the spec: the enumeration \<open>network_type\<close> (declared in
  cryptonote_config.h, not part of the sources at hand). The spec's network kinds are
  production, test and staging.
\<close>

datatype network_type = MAINNET | TESTNET | STAGENET

text \<open>
  \<open>init_default_checkpoints\<close> (lines 186-213). Every \<open>ADD_CHECKPOINT\<close> line of
  the function is inside a comment, so the branch that is left for the production
  network returns \<open>true\<close> at once, as the two guarded branches do.
\<close>

definition init_default_checkpoints :: "network_type \<Rightarrow> checkpoints \<Rightarrow> bool \<times> checkpoints" where
  "init_default_checkpoints nettype s =
     (if nettype = TESTNET then (True, s)
      else if nettype = STAGENET then (True, s)
      else (True, s))"

text \<open>The structs \<open>t_hashline\<close> and \<open>t_hash_json\<close> (lines 53-72).\<close>

record t_hashline =
  height :: "64 word"
  hash :: string

record t_hash_json =
  hashlines :: "t_hashline list"

text \<open>
  What the file system answers for a path: \<open>boost::filesystem::exists\<close> is false
  (\<open>File_missing\<close>), or the file is there and \<open>load_t_from_json_file\<close> fails
  (\<open>File_malformed\<close>) or fills the \<open>t_hash_json\<close>.
\<close>

datatype json_hashfile = File_missing | File_malformed | File_json t_hash_json

text \<open>
  Modelled from the spec: the macro \<open>ADD_CHECKPOINT(h, hash)\<close> (defined in
  checkpoints.h, not part of the sources at hand). The spec has the file loader insert
  each record via \<open>add_checkpoint\<close>, propagating insertion conflict and parse errors as
  overall failure: the macro calls \<open>add_checkpoint(h, hash)\<close>, the difficulty string
  left empty, and on failure makes the enclosing function return \<open>false\<close> at once.
  The call is \<open>ADD_CHECKPOINT\<close>; the return on failure is written out in the two
  loops that use the macro.
\<close>

definition ADD_CHECKPOINT :: "64 word \<Rightarrow> string \<Rightarrow> checkpoints \<Rightarrow> bool \<times> checkpoints" where
  "ADD_CHECKPOINT h hash_str s = add_checkpoint h hash_str [] s"

text \<open>The loop of \<open>load_checkpoints_from_json\<close> (lines 234-249).\<close>

fun load_checkpoints_from_json_loop ::
  "64 word \<Rightarrow> t_hashline list \<Rightarrow> checkpoints \<Rightarrow> bool \<times> checkpoints" where
  "load_checkpoints_from_json_loop prev_max_height [] s = (True, s)"
| "load_checkpoints_from_json_loop prev_max_height (it # rest) s =
     (if height it \<le> prev_max_height
      then load_checkpoints_from_json_loop prev_max_height rest s
      else
        let blockhash = hash it in
        (case ADD_CHECKPOINT (height it) blockhash s of
           (r, s') \<Rightarrow>
             if r then load_checkpoints_from_json_loop prev_max_height rest s'
             else (False, s')))"

definition load_checkpoints_from_json ::
  "(string \<Rightarrow> json_hashfile) \<Rightarrow> string \<Rightarrow> checkpoints \<Rightarrow> bool \<times> checkpoints" where
  "load_checkpoints_from_json fs json_hashfile_fullpath s =
     (case fs json_hashfile_fullpath of
        File_missing \<Rightarrow> (True, s)
      | File_malformed \<Rightarrow> (False, s)
      | File_json hashes \<Rightarrow>
          load_checkpoints_from_json_loop (get_max_height s) (hashlines hashes) s)"

text \<open>\<open>record.find(":")\<close>: the position of the first colon, \<open>None\<close> for \<open>npos\<close>.\<close>

definition str_find :: "char \<Rightarrow> string \<Rightarrow> nat option" where
  "str_find c str =
     (if c \<in> set str then Some (length (takeWhile (\<lambda>x. x \<noteq> c) str)) else None)"

definition is_space :: "char \<Rightarrow> bool" where
  "is_space c = (c \<in> set [CHR '' '', CHR 0x09, CHR 0x0A, CHR 0x0B, CHR 0x0C, CHR 0x0D])"

text \<open>
  \<open>ss >> height\<close> for a \<open>uint64_t\<close> on a fresh \<open>std::stringstream\<close>: the C++
  library skips leading white space, takes an optional sign and the longest run of
  decimal digits, and fails when there is no digit or the number does not fit 64 bits;
  what follows the digits is left unread. A minus sign negates modulo \<open>2^64\<close>.
\<close>

definition stream_extract_uint64 :: "string \<Rightarrow> 64 word option" where
  "stream_extract_uint64 str =
     (let str1 = dropWhile is_space str;
          negative = (str1 \<noteq> [] \<and> hd str1 = CHR ''-'');
          signed = (str1 \<noteq> [] \<and> (hd str1 = CHR ''-'' \<or> hd str1 = CHR ''+''));
          str2 = (if signed then tl str1 else str1);
          digits = takeWhile (\<lambda>c. digit_val c \<noteq> None) str2
      in if digits = [] then None
         else
           (case decimal_digits digits 0 of
              None \<Rightarrow> None
            | Some n \<Rightarrow>
                if n < 2 ^ 64
                then Some (if negative then - word_of_nat n else word_of_nat n)
                else None))"

text \<open>The loop of \<open>load_checkpoints_from_dns\<close> (lines 261-287).\<close>

fun load_checkpoints_from_dns_loop :: "string list \<Rightarrow> checkpoints \<Rightarrow> bool \<times> checkpoints" where
  "load_checkpoints_from_dns_loop [] s = (True, s)"
| "load_checkpoints_from_dns_loop (rec # records) s =
     (case str_find CHR '':'' rec of
        None \<Rightarrow> load_checkpoints_from_dns_loop records s
      | Some pos \<Rightarrow>
          (case stream_extract_uint64 (take pos rec) of
             None \<Rightarrow> load_checkpoints_from_dns_loop records s
           | Some ht \<Rightarrow>
               let hashStr = drop (pos + 1) rec in
               (case hex_to_pod hashStr of
                  None \<Rightarrow> load_checkpoints_from_dns_loop records s
                | Some _ \<Rightarrow>
                    (case ADD_CHECKPOINT ht hashStr s of
                       (r, s') \<Rightarrow>
                         if r then load_checkpoints_from_dns_loop records s'
                         else (False, s')))))"

text \<open>
  \<open>load_checkpoints_from_dns\<close> (lines 254-289). The first argument stands for
  \<open>tools::dns_utils::load_txt_records_from_dns\<close> on the addresses configured for the
  network: \<open>None\<close> when the fetch fails, else the TXT records.
\<close>

definition load_checkpoints_from_dns ::
  "(network_type \<Rightarrow> string list option) \<Rightarrow> network_type \<Rightarrow> checkpoints \<Rightarrow> bool \<times> checkpoints" where
  "load_checkpoints_from_dns dns nettype s =
     (case dns nettype of
        None \<Rightarrow> (True, s)
      | Some records \<Rightarrow> load_checkpoints_from_dns_loop records s)"

text \<open>\<open>load_new_checkpoints\<close> (lines 291-302).\<close>

definition load_new_checkpoints ::
  "(string \<Rightarrow> json_hashfile) \<Rightarrow> (network_type \<Rightarrow> string list option) \<Rightarrow>
   string \<Rightarrow> network_type \<Rightarrow> bool \<Rightarrow> checkpoints \<Rightarrow> bool \<times> checkpoints" where
  "load_new_checkpoints fs dns json_hashfile_fullpath nettype use_dns s =
     (case load_checkpoints_from_json fs json_hashfile_fullpath s of
        (result, s1) \<Rightarrow>
          if use_dns then
            (case load_checkpoints_from_dns dns nettype s1 of
               (r2, s2) \<Rightarrow> (result \<and> r2, s2))
          else (result, s1))"

subsection \<open>Reference definitions for the ingestion claims\<close>

text \<open>
  Inserting a list of (height, hash) pairs one after the other through
  \<open>add_checkpoint\<close> with an empty difficulty string; the first insertion that fails
  ends the run with \<open>false\<close>.
\<close>

fun add_checkpoints :: "(64 word \<times> string) list \<Rightarrow> checkpoints \<Rightarrow> bool \<times> checkpoints" where
  "add_checkpoints [] s = (True, s)"
| "add_checkpoints (p # ps) s =
     (case add_checkpoint (fst p) (snd p) [] s of
        (r, s') \<Rightarrow> if r then add_checkpoints ps s' else (False, s'))"

text \<open>
  What the body of the DNS loop reads from one record (lines 263-283), as one function:
  the height and the hash string it hands to \<open>ADD_CHECKPOINT\<close>, or \<open>None\<close> when one
  of the three steps makes it move on to the next record.
\<close>

definition dns_record_read :: "string \<Rightarrow> (64 word \<times> string) option" where
  "dns_record_read rec =
     (if CHR '':'' \<in> set rec then
        (case stream_extract_uint64 (takeWhile (\<lambda>c. c \<noteq> CHR '':'') rec) of
           None \<Rightarrow> None
         | Some ht \<Rightarrow>
             (case hex_to_pod (tl (dropWhile (\<lambda>c. c \<noteq> CHR '':'') rec)) of
                None \<Rightarrow> None
              | Some _ \<Rightarrow> Some (ht, tl (dropWhile (\<lambda>c. c \<noteq> CHR '':'') rec))))
      else None)"





text \<open>
  The operations of the class that are not \<open>const\<close>, as one datatype, and the
  registry after running one of them. The \<open>const\<close> member functions only read the
  registry; in the embedding they return no registry at all.
\<close>

datatype operation =
    Add_checkpoint "64 word" string string
  | Init_default_checkpoints network_type
  | Load_checkpoints_from_json string
  | Load_checkpoints_from_dns network_type
  | Load_new_checkpoints string network_type bool

fun run_operation ::
  "(string \<Rightarrow> json_hashfile) \<Rightarrow> (network_type \<Rightarrow> string list option) \<Rightarrow>
   operation \<Rightarrow> checkpoints \<Rightarrow> bool \<times> checkpoints" where
  "run_operation fs dns (Add_checkpoint ht hash_str difficulty_str) s =
     add_checkpoint ht hash_str difficulty_str s"
| "run_operation fs dns (Init_default_checkpoints nettype) s =
     init_default_checkpoints nettype s"
| "run_operation fs dns (Load_checkpoints_from_json path) s =
     load_checkpoints_from_json fs path s"
| "run_operation fs dns (Load_checkpoints_from_dns nettype) s =
     load_checkpoints_from_dns dns nettype s"
| "run_operation fs dns (Load_new_checkpoints path nettype use_dns) s =
     load_new_checkpoints fs dns path nettype use_dns s"

text \<open>
  One registry extends another when every entry of the first, in either map, is an entry
  of the second with the same value.
\<close>

definition registry_le :: "checkpoints \<Rightarrow> checkpoints \<Rightarrow> bool" where
  "registry_le s s' =
     (map_of (m_points s) \<subseteq>\<^sub>m map_of (m_points s') \<and>
      map_of (m_difficulty_points s) \<subseteq>\<^sub>m map_of (m_difficulty_points s'))"

subsection \<open>Facts about the ordered map\<close>

lemma map_of_map_assign: "map_of (map_assign k v m) = (map_of m)(k \<mapsto> v)"
  by (induction m) (auto simp: fun_upd_twist)

lemma map_assign_idem: "map_assign k v (map_assign k v m) = map_assign k v m"
  by (induction m) auto

lemma set_map_assign: "fst ` set (map_assign k v m) = insert k (fst ` set m)"
  by (induction m) auto

lemma map_sorted_map_assign: "map_sorted m \<Longrightarrow> map_sorted (map_assign k v m)"
proof (induction m)
  case Nil
  then show ?case by (simp add: map_sorted_def)
next
  case (Cons p m)
  have tail: "map_sorted m" using Cons.prems by (simp add: map_sorted_def)
  show ?case
  proof (cases "k < fst p")
    case True
    then show ?thesis using Cons.prems by (auto simp: map_sorted_def)
  next
    case False
    show ?thesis
    proof (cases "k = fst p")
      case True
      then show ?thesis using Cons.prems by (simp add: map_sorted_def)
    next
      case ne: False
      with False have "fst p < k" by simp
      moreover have "\<forall>x\<in>fst ` set m. fst p < x" using Cons.prems by (auto simp: map_sorted_def)
      ultimately have "\<forall>x\<in>fst ` set (map_assign k v m). fst p < x"
        by (simp add: set_map_assign)
      moreover have "map_sorted (map_assign k v m)" using Cons.IH tail by simp
      ultimately show ?thesis using False ne by (auto simp: map_sorted_def)
    qed
  qed
qed

lemma map_sorted_lookup_less:
  "map_sorted (p # m) \<Longrightarrow> k \<le> fst p \<Longrightarrow> map_of m k = None"
  by (force simp: map_sorted_def map_of_eq_None_iff)

lemma map_assign_same:
  "map_sorted m \<Longrightarrow> map_of m k = Some v \<Longrightarrow> map_assign k v m = m"
proof (induction m)
  case Nil
  then show ?case by simp
next
  case (Cons p m)
  show ?case
  proof (cases "k = fst p")
    case True
    then show ?thesis using Cons.prems(2) by (cases p) auto
  next
    case False
    then have look: "map_of m k = Some v" using Cons.prems(2) by (cases p) (auto split: if_splits)
    have "\<not> k < fst p"
    proof
      assume "k < fst p"
      then have "map_of m k = None" using map_sorted_lookup_less [OF Cons.prems(1), of k] by simp
      with look show False by simp
    qed
    moreover have "map_sorted m" using Cons.prems(1) by (simp add: map_sorted_def)
    ultimately show ?thesis using False Cons.IH look by simp
  qed
qed

lemma map_count_eq_0: "(map_count k m = 0) = (map_of m k = None)"
  by (simp add: map_count_def split: option.splits)

lemma takeWhile_sorted_set:
  "map_sorted m \<Longrightarrow> set (takeWhile (\<lambda>p. fst p \<le> c) m) = {p \<in> set m. fst p \<le> c}"
proof (induction m)
  case Nil
  then show ?case by simp
next
  case (Cons p m)
  have tail: "map_sorted m" using Cons.prems by (simp add: map_sorted_def)
  show ?case
  proof (cases "fst p \<le> c")
    case True
    then show ?thesis using Cons.IH [OF tail] by auto
  next
    case False
    have "\<forall>q\<in>set m. fst p < fst q" using Cons.prems by (auto simp: map_sorted_def)
    then have "\<forall>q\<in>set m. \<not> fst q \<le> c" using False by fastforce
    then show ?thesis using False by auto
  qed
qed

lemma last_sorted_Max:
  "map_sorted m \<Longrightarrow> m \<noteq> [] \<Longrightarrow> fst (last m) = Max (fst ` set m)"
proof (induction m)
  case Nil
  then show ?case by simp
next
  case (Cons p m)
  show ?case
  proof (cases "m = []")
    case True
    then show ?thesis by simp
  next
    case False
    have tail: "map_sorted m" using Cons.prems by (simp add: map_sorted_def)
    have ih: "fst (last m) = Max (fst ` set m)" using Cons.IH tail False by simp
    have "fst (last m) \<in> fst ` set m" using False by simp
    moreover have "\<forall>x\<in>fst ` set m. fst p < x" using Cons.prems by (auto simp: map_sorted_def)
    ultimately have "fst p < Max (fst ` set m)" using ih by metis
    then have "Max (insert (fst p) (fst ` set m)) = Max (fst ` set m)"
      using False by (simp add: max_def less_imp_le)
    then show ?thesis using False ih by simp
  qed
qed

lemma map_sorted_takeWhile: "map_sorted m \<Longrightarrow> map_sorted (takeWhile P m)"
  unfolding map_sorted_def
  by (induction m) (auto dest: set_takeWhileD)

lemma map_sorted_lookup:
  "map_sorted m \<Longrightarrow> pt \<in> set m \<Longrightarrow> map_of m (fst pt) = Some (snd pt)"
  by (simp add: map_sorted_def strict_sorted_iff)

lemma map_le_map_assign:
  "map_of m k = None \<or> map_of m k = Some v \<Longrightarrow> map_of m \<subseteq>\<^sub>m map_of (map_assign k v m)"
  by (auto simp: map_of_map_assign map_le_def)

subsection \<open>Block acceptance\<close>

text \<open>
  C3. For every height and hash: with no checkpoint stored at the height,
  \<open>check_block\<close> accepts and reports that the height is not checkpointed; with a hash
  stored there, it reports a checkpoint and accepts exactly when the stored hash is the
  given one.
\<close>

theorem check_block_spec:
  "(map_of (m_points s) ht = None \<longrightarrow> check_block s ht h = (True, False)) \<and>
   (\<forall>stored. map_of (m_points s) ht = Some stored \<longrightarrow>
      check_block s ht h = (stored = h, True))"
  by (simp add: check_block_def)

theorem check_block_spec_witness:
  "check_block
     (snd (add_checkpoint 50
        ''4636abd13b1b7b9258ff84bf1fde1a82e62c9e751daa94b3fcf7412e212a7198'' []
        checkpoints_init))
     51 (replicate 32 0) = (True, False) \<and>
   check_block
     (snd (add_checkpoint 50
        ''4636abd13b1b7b9258ff84bf1fde1a82e62c9e751daa94b3fcf7412e212a7198'' []
        checkpoints_init))
     50 (replicate 32 0) = (False, True)"
proof -
  let ?s = "snd (add_checkpoint 50
      ''4636abd13b1b7b9258ff84bf1fde1a82e62c9e751daa94b3fcf7412e212a7198'' [] checkpoints_init)"
  let ?stored = "[70, 54, 171, 209, 59, 27, 123, 146, 88, 255, 132, 191, 31, 222, 26, 130,
      230, 44, 158, 117, 29, 170, 148, 179, 252, 247, 65, 46, 33, 42, 113, 152] :: crypto_hash"
  have none: "map_of (m_points ?s) 51 = None"
    by (simp add: add_checkpoint_def hex_to_pod_def checkpoints_init_def map_count_def)
  have some: "map_of (m_points ?s) 50 = Some ?stored"
    by (simp add: add_checkpoint_def hex_to_pod_def checkpoints_init_def map_count_def)
  have differs: "?stored \<noteq> replicate 32 0"
  proof
    assume "?stored = replicate 32 0"
    then have "hd ?stored = hd (replicate 32 (0 :: 8 word))" by (rule arg_cong)
    then show False by simp
  qed
  from check_block_spec [of ?s 51 "replicate 32 0"] none
  have a: "check_block ?s 51 (replicate 32 0) = (True, False)" by blast
  from check_block_spec [of ?s 50 "replicate 32 0"] some differs
  have b: "check_block ?s 50 (replicate 32 0) = (False, True)" by simp
  from a b show ?thesis by blast
qed


subsection \<open>Alternative blocks\<close>

text \<open>
  C4. \<open>is_alternative_block_allowed\<close> is false for candidate height 0; otherwise
  it is true when no checkpointed height is at or below the chain height, and else true
  exactly when the candidate height is strictly greater than the greatest checkpointed
  height at or below the chain height.
\<close>

theorem is_alternative_block_allowed_spec:
  assumes "map_sorted (m_points s)"
  shows "is_alternative_block_allowed s chain cand =
     (if cand = 0 then False
      else if {k \<in> fst ` set (m_points s). k \<le> chain} = {} then True
      else Max {k \<in> fst ` set (m_points s). k \<le> chain} < cand)"
proof -
  define tw where "tw = takeWhile (\<lambda>p. fst p \<le> chain) (m_points s)"
  have keys: "fst ` set tw = {k \<in> fst ` set (m_points s). k \<le> chain}"
    unfolding tw_def using takeWhile_sorted_set [OF assms, of chain] by auto
  have ub: "upper_bound chain (m_points s) = length tw"
    by (simp add: upper_bound_def tw_def)
  show ?thesis
  proof (cases "tw = []")
    case True
    then show ?thesis using keys ub
      by (auto simp: is_alternative_block_allowed_def)
  next
    case False
    then have pos: "length tw - 1 < length tw" by (cases tw) auto
    have "m_points s ! (length tw - 1) = tw ! (length tw - 1)"
      using takeWhile_nth [of "length tw - 1" "\<lambda>p. fst p \<le> chain" "m_points s"] pos
      by (simp add: tw_def)
    also have "\<dots> = last tw" using False by (simp add: last_conv_nth)
    finally have nth: "m_points s ! (length tw - 1) = last tw" .
    have "fst (last tw) = Max (fst ` set tw)"
      using last_sorted_Max [OF _ False] map_sorted_takeWhile [OF assms] by (simp add: tw_def)
    then have mx: "fst (last tw) = Max {k \<in> fst ` set (m_points s). k \<le> chain}"
      using keys by simp
    have ne: "{k \<in> fst ` set (m_points s). k \<le> chain} \<noteq> {}"
      using keys False by (metis image_is_empty set_empty)
    show ?thesis
      using False ub nth mx ne by (auto simp: is_alternative_block_allowed_def Let_def)
  qed
qed

theorem is_alternative_block_allowed_spec_witness:
  "\<not> is_alternative_block_allowed \<lparr>m_points = [(50, replicate 32 0)], m_difficulty_points = []\<rparr> 60 50
   \<and> is_alternative_block_allowed \<lparr>m_points = [(50, replicate 32 0)], m_difficulty_points = []\<rparr> 60 51
   \<and> is_alternative_block_allowed \<lparr>m_points = [(50, replicate 32 0)], m_difficulty_points = []\<rparr> 10 7"
proof -
  let ?s = "\<lparr>m_points = [(50, replicate 32 0)], m_difficulty_points = []\<rparr> :: checkpoints"
  have srt: "map_sorted (m_points ?s)" by (simp add: map_sorted_def)
  have k60: "{k \<in> fst ` set (m_points ?s). k \<le> 60} = {50}" by auto
  have k10: "{k \<in> fst ` set (m_points ?s). k \<le> 10} = {}" by auto
  have a: "\<not> is_alternative_block_allowed ?s 60 50"
    using is_alternative_block_allowed_spec [OF srt, of 60 50] unfolding k60 by simp
  have b: "is_alternative_block_allowed ?s 60 51"
    using is_alternative_block_allowed_spec [OF srt, of 60 51] unfolding k60 by simp
  have c: "is_alternative_block_allowed ?s 10 7"
    using is_alternative_block_allowed_spec [OF srt, of 10 7] unfolding k10 by simp
  from a b c show ?thesis by blast
qed

subsection \<open>Insertion\<close>

text \<open>
  Every way through \<open>add_checkpoint\<close>: the two failures of the hash step leave the
  registry as it was; after them the hash is stored, and the call fails on the
  difficulty, or succeeds without one, or succeeds and stores it.
\<close>

lemma add_checkpoint_cases:
  "add_checkpoint ht hash_str difficulty_str s = (r, s') \<Longrightarrow>
     (r = False \<and> s' = s \<and>
        (hex_to_pod hash_str = None \<or>
         (\<exists>h y. hex_to_pod hash_str = Some h \<and> map_of (m_points s) ht = Some y \<and> y \<noteq> h)))
   \<or> (\<exists>h. hex_to_pod hash_str = Some h \<and> map_of (m_points s) ht \<in> {None, Some h} \<and>
        ((r = False \<and> difficulty_str \<noteq> [] \<and>
          s' = s\<lparr>m_points := map_assign ht h (m_points s)\<rparr> \<and>
          (difficulty_of_string difficulty_str = None \<or>
           (\<exists>d y. difficulty_of_string difficulty_str = Some d \<and>
                  map_of (m_difficulty_points s) ht = Some y \<and> y \<noteq> d)))
         \<or> (r = True \<and> difficulty_str = [] \<and>
             s' = s\<lparr>m_points := map_assign ht h (m_points s)\<rparr>)
         \<or> (\<exists>d. r = True \<and> difficulty_str \<noteq> [] \<and>
               difficulty_of_string difficulty_str = Some d \<and>
               map_of (m_difficulty_points s) ht \<in> {None, Some d} \<and>
               s' = s\<lparr>m_points := map_assign ht h (m_points s),
                       m_difficulty_points := map_assign ht d (m_difficulty_points s)\<rparr>)))"
  unfolding add_checkpoint_def map_count_eq_0 Let_def
  by (auto split: option.splits if_splits)

text \<open>
  C1, as the code has it. A failing \<open>add_checkpoint\<close> never changes the difficulty
  map. It leaves the whole registry as it was when the hash string does not parse or the
  height already holds a hash; when the height held no hash and the hash string parses,
  the failure comes from the difficulty step, and the decoded hash stays stored at the
  height: the hash write of line 90 is not rolled back.
\<close>

theorem add_checkpoint_failure_state:
  assumes wf: "checkpoints_wf s"
    and fail: "add_checkpoint ht hash_str difficulty_str s = (False, s')"
  shows "m_difficulty_points s' = m_difficulty_points s \<and>
         s' = (case hex_to_pod hash_str of
                 None \<Rightarrow> s
               | Some h \<Rightarrow>
                   (case map_of (m_points s) ht of
                      Some stored \<Rightarrow> s
                    | None \<Rightarrow> s\<lparr>m_points := map_assign ht h (m_points s)\<rparr>))"
proof -
  have same: "map_assign ht h (m_points s) = m_points s" if "map_of (m_points s) ht = Some h" for h
    using map_assign_same [OF _ that] wf by (simp add: checkpoints_wf_def)
  from add_checkpoint_cases [OF fail] show ?thesis
    by (auto simp: same)
qed

theorem add_checkpoint_failure_state_witness:
  "checkpoints_wf checkpoints_init \<and>
   add_checkpoint 1 ''4636abd13b1b7b9258ff84bf1fde1a82e62c9e751daa94b3fcf7412e212a7198'' ''abc''
     checkpoints_init =
     (False, checkpoints_init\<lparr>m_points := [(1, [70, 54, 171, 209, 59, 27, 123, 146, 88, 255,
        132, 191, 31, 222, 26, 130, 230, 44, 158, 117, 29, 170, 148, 179, 252, 247, 65, 46, 33,
        42, 113, 152])]\<rparr>) \<and>
   hex_to_pod ''4636abd13b1b7b9258ff84bf1fde1a82e62c9e751daa94b3fcf7412e212a7198'' =
     Some [70, 54, 171, 209, 59, 27, 123, 146, 88, 255,
        132, 191, 31, 222, 26, 130, 230, 44, 158, 117, 29, 170, 148, 179, 252, 247, 65, 46, 33,
        42, 113, 152] \<and>
   map_of (m_points checkpoints_init) (1 :: 64 word) = None"
proof -
  let ?h = "[70, 54, 171, 209, 59, 27, 123, 146, 88, 255,
        132, 191, 31, 222, 26, 130, 230, 44, 158, 117, 29, 170, 148, 179, 252, 247, 65, 46, 33,
        42, 113, 152] :: crypto_hash"
  let ?hs = "''4636abd13b1b7b9258ff84bf1fde1a82e62c9e751daa94b3fcf7412e212a7198''"
  have wf: "checkpoints_wf checkpoints_init"
    by (simp add: checkpoints_wf_def checkpoints_init_def map_sorted_def)
  have hx: "hex_to_pod ?hs = Some ?h" by (simp add: hex_to_pod_def)
  have fail: "add_checkpoint 1 ?hs ''abc'' checkpoints_init =
      (False, checkpoints_init\<lparr>m_points := [(1, ?h)]\<rparr>)"
    by (simp add: add_checkpoint_def hx checkpoints_init_def map_count_def difficulty_of_string_def)
  have "map_of (m_points checkpoints_init) (1 :: 64 word) = None"
    by (simp add: checkpoints_init_def)
  with add_checkpoint_failure_state [OF wf fail] wf fail hx show ?thesis by blast
qed

text \<open>
  The claim as the spec words it fails: on the empty registry, a call with a valid hash
  and the difficulty string \<open>abc\<close> returns \<open>false\<close> and leaves a hash entry at
  height 1 that was not there before.
\<close>

theorem add_checkpoint_atomic_counterexample:
  "fst (add_checkpoint 1 ''4636abd13b1b7b9258ff84bf1fde1a82e62c9e751daa94b3fcf7412e212a7198''
          ''abc'' checkpoints_init) = False \<and>
   snd (add_checkpoint 1 ''4636abd13b1b7b9258ff84bf1fde1a82e62c9e751daa94b3fcf7412e212a7198''
          ''abc'' checkpoints_init) \<noteq> checkpoints_init \<and>
   map_of (m_points checkpoints_init) 1 = None \<and>
   map_of (m_points (snd (add_checkpoint 1
      ''4636abd13b1b7b9258ff84bf1fde1a82e62c9e751daa94b3fcf7412e212a7198'' ''abc''
      checkpoints_init))) 1 \<noteq> None"
  by (simp add: add_checkpoint_def hex_to_pod_def checkpoints_init_def map_count_def
      difficulty_of_string_def)

text \<open>
  C5. After \<open>add_checkpoint(h, hashA, "")\<close> has succeeded, \<open>add_checkpoint(h, hashB, "")\<close>
  with a hash string that decodes to a different hash fails and returns the registry
  unchanged, which still reports the first hash at the height.
\<close>

theorem add_checkpoint_conflict:
  assumes "add_checkpoint ht hashA [] s = (True, s1)"
    and "hex_to_pod hashA = Some a" and "hex_to_pod hashB = Some b" and "a \<noteq> b"
  shows "add_checkpoint ht hashB [] s1 = (False, s1) \<and> check_block s1 ht a = (True, True)"
proof -
  from add_checkpoint_cases [OF assms(1)] assms(2)
  have s1: "s1 = s\<lparr>m_points := map_assign ht a (m_points s)\<rparr>" by auto
  then have look: "map_of (m_points s1) ht = Some a" by (simp add: map_of_map_assign)
  then show ?thesis using assms(3,4)
    by (auto simp: add_checkpoint_def check_block_def map_count_eq_0)
qed

theorem add_checkpoint_conflict_witness:
  "add_checkpoint 7 ''4636abd13b1b7b9258ff84bf1fde1a82e62c9e751daa94b3fcf7412e212a7198'' []
     (snd (add_checkpoint 7 ''3e79b719c2b779f68cf2fcd2d787f875b719435f08540765c3484e66e3604b92'' []
        checkpoints_init)) =
   (False, snd (add_checkpoint 7
      ''3e79b719c2b779f68cf2fcd2d787f875b719435f08540765c3484e66e3604b92'' [] checkpoints_init))"
proof -
  let ?hA = "''3e79b719c2b779f68cf2fcd2d787f875b719435f08540765c3484e66e3604b92''"
  let ?hB = "''4636abd13b1b7b9258ff84bf1fde1a82e62c9e751daa94b3fcf7412e212a7198''"
  let ?a = "[62, 121, 183, 25, 194, 183, 121, 246, 140, 242, 252, 210, 215, 135, 248, 117, 183,
     25, 67, 95, 8, 84, 7, 101, 195, 72, 78, 102, 227, 96, 75, 146] :: crypto_hash"
  let ?b = "[70, 54, 171, 209, 59, 27, 123, 146, 88, 255,
        132, 191, 31, 222, 26, 130, 230, 44, 158, 117, 29, 170, 148, 179, 252, 247, 65, 46, 33,
        42, 113, 152] :: crypto_hash"
  have a: "hex_to_pod ?hA = Some ?a" by (simp add: hex_to_pod_def)
  have b: "hex_to_pod ?hB = Some ?b" by (simp add: hex_to_pod_def)
  have ne: "?a \<noteq> ?b" by simp
  have ok: "add_checkpoint 7 ?hA [] checkpoints_init =
     (True, snd (add_checkpoint 7 ?hA [] checkpoints_init))"
    by (simp add: add_checkpoint_def a checkpoints_init_def map_count_def)
  from add_checkpoint_conflict [OF ok a b ne] show ?thesis by blast
qed

text \<open>
  C7. When \<open>add_checkpoint(h, hash, diff)\<close> succeeds, the same call on the resulting
  registry succeeds as well and returns that registry unchanged.
\<close>

theorem add_checkpoint_idempotent:
  assumes "add_checkpoint ht hash_str difficulty_str s = (True, s')"
  shows "add_checkpoint ht hash_str difficulty_str s' = (True, s')"
proof -
  from add_checkpoint_cases [OF assms] obtain h where
    h: "hex_to_pod hash_str = Some h" and
    s': "(difficulty_str = [] \<and> s' = s\<lparr>m_points := map_assign ht h (m_points s)\<rparr>)
       \<or> (\<exists>d. difficulty_str \<noteq> [] \<and> difficulty_of_string difficulty_str = Some d \<and>
               s' = s\<lparr>m_points := map_assign ht h (m_points s),
                       m_difficulty_points := map_assign ht d (m_difficulty_points s)\<rparr>)"
    by auto
  from s' show ?thesis
  proof
    assume "difficulty_str = [] \<and> s' = s\<lparr>m_points := map_assign ht h (m_points s)\<rparr>"
    then show ?thesis using h
      by (simp add: add_checkpoint_def map_count_eq_0 map_of_map_assign map_assign_idem)
  next
    assume "\<exists>d. difficulty_str \<noteq> [] \<and> difficulty_of_string difficulty_str = Some d \<and>
               s' = s\<lparr>m_points := map_assign ht h (m_points s),
                       m_difficulty_points := map_assign ht d (m_difficulty_points s)\<rparr>"
    then show ?thesis using h
      by (auto simp: add_checkpoint_def map_count_eq_0 map_of_map_assign map_assign_idem)
  qed
qed

theorem add_checkpoint_idempotent_witness:
  "add_checkpoint 7 ''4636abd13b1b7b9258ff84bf1fde1a82e62c9e751daa94b3fcf7412e212a7198'' ''1500''
     \<lparr>m_points = [(7, [70, 54, 171, 209, 59, 27, 123, 146, 88, 255,
        132, 191, 31, 222, 26, 130, 230, 44, 158, 117, 29, 170, 148, 179, 252, 247, 65, 46, 33,
        42, 113, 152])], m_difficulty_points = [(7, 1500)]\<rparr> =
   (True, \<lparr>m_points = [(7, [70, 54, 171, 209, 59, 27, 123, 146, 88, 255,
        132, 191, 31, 222, 26, 130, 230, 44, 158, 117, 29, 170, 148, 179, 252, 247, 65, 46, 33,
        42, 113, 152])], m_difficulty_points = [(7, 1500)]\<rparr>)"
proof -
  let ?hs = "''4636abd13b1b7b9258ff84bf1fde1a82e62c9e751daa94b3fcf7412e212a7198''"
  have first: "add_checkpoint 7 ?hs ''1500'' checkpoints_init =
     (True, \<lparr>m_points = [(7, [70, 54, 171, 209, 59, 27, 123, 146, 88, 255,
        132, 191, 31, 222, 26, 130, 230, 44, 158, 117, 29, 170, 148, 179, 252, 247, 65, 46, 33,
        42, 113, 152])], m_difficulty_points = [(7, 1500)]\<rparr>)"
    by (simp add: add_checkpoint_def hex_to_pod_def checkpoints_init_def map_count_def
        difficulty_of_string_def)
  from add_checkpoint_idempotent [OF first] show ?thesis .
qed

subsection \<open>Insertion keeps the invariant and extends the registry\<close>

lemma registry_le_refl: "registry_le s s"
  by (simp add: registry_le_def)

lemma registry_le_trans: "registry_le s t \<Longrightarrow> registry_le t u \<Longrightarrow> registry_le s u"
  unfolding registry_le_def by (blast intro: map_le_trans)

lemma add_checkpoint_registry_le:
  assumes "add_checkpoint ht hash_str difficulty_str s = (r, s')"
  shows "registry_le s s'"
  using add_checkpoint_cases [OF assms]
  by (auto simp: registry_le_def intro!: map_le_map_assign)

lemma add_checkpoint_wf:
  assumes "add_checkpoint ht hash_str difficulty_str s = (r, s')" and "checkpoints_wf s"
  shows "checkpoints_wf s'"
  using add_checkpoint_cases [OF assms(1)] assms(2)
  by (auto simp: checkpoints_wf_def intro!: map_sorted_map_assign)

lemma add_checkpoints_registry_le:
  "add_checkpoints ps s = (r, s') \<Longrightarrow> registry_le s s'"
proof (induction ps arbitrary: s)
  case Nil
  then show ?case by (simp add: registry_le_refl)
next
  case (Cons p ps)
  obtain r1 s1 where step: "add_checkpoint (fst p) (snd p) [] s = (r1, s1)"
    by (cases "add_checkpoint (fst p) (snd p) [] s")
  have le1: "registry_le s s1" by (rule add_checkpoint_registry_le [OF step])
  show ?case
  proof (cases r1)
    case True
    then have "add_checkpoints ps s1 = (r, s')" using Cons.prems step by simp
    then have "registry_le s1 s'" by (rule Cons.IH)
    with le1 show ?thesis by (rule registry_le_trans)
  next
    case False
    then have "s' = s1" using Cons.prems step by simp
    with le1 show ?thesis by simp
  qed
qed

lemma add_checkpoints_wf:
  "add_checkpoints ps s = (r, s') \<Longrightarrow> checkpoints_wf s \<Longrightarrow> checkpoints_wf s'"
proof (induction ps arbitrary: s)
  case Nil
  then show ?case by simp
next
  case (Cons p ps)
  obtain r1 s1 where step: "add_checkpoint (fst p) (snd p) [] s = (r1, s1)"
    by (cases "add_checkpoint (fst p) (snd p) [] s")
  have wf1: "checkpoints_wf s1" by (rule add_checkpoint_wf [OF step Cons.prems(2)])
  show ?case
  proof (cases r1)
    case True
    then have "add_checkpoints ps s1 = (r, s')" using Cons.prems(1) step by simp
    then show ?thesis using wf1 by (rule Cons.IH)
  next
    case False
    then have "s' = s1" using Cons.prems(1) step by simp
    with wf1 show ?thesis by simp
  qed
qed

lemma checkpoints_wf_init: "checkpoints_wf checkpoints_init"
  by (simp add: checkpoints_wf_def checkpoints_init_def map_sorted_def)

subsection \<open>Conflicts between two registries\<close>

lemma check_for_conflicts_loop_True:
  "(\<And>pt a. pt \<in> set pts \<Longrightarrow> map_of m (fst pt) = Some a \<Longrightarrow> a = snd pt) \<Longrightarrow>
   check_for_conflicts_loop m pts"
proof (induction pts)
  case Nil
  then show ?case by simp
next
  case (Cons pt pts)
  have "map_count (fst pt) m \<noteq> 0 \<Longrightarrow> map_of m (fst pt) = Some (snd pt)"
    using Cons.prems [of pt] by (auto simp: map_count_eq_0)
  moreover have "check_for_conflicts_loop m pts"
    using Cons.IH Cons.prems by simp
  ultimately show ?case by auto
qed

lemma check_for_conflicts_loop_D:
  "check_for_conflicts_loop m pts \<Longrightarrow> pt \<in> set pts \<Longrightarrow> map_of m (fst pt) = Some a \<Longrightarrow>
   a = snd pt"
proof (induction pts)
  case Nil
  then show ?case by simp
next
  case (Cons q pts)
  from Cons.prems(1) have hd_ok: "map_count (fst q) m = 0 \<or> map_of m (fst q) = Some (snd q)"
    and tl_ok: "check_for_conflicts_loop m pts"
    by (auto split: if_splits)
  show ?case
  proof (cases "pt = q")
    case True
    then show ?thesis using hd_ok Cons.prems(3) by (auto simp: map_count_eq_0)
  next
    case False
    then have "pt \<in> set pts" using Cons.prems(2) by simp
    then show ?thesis using Cons.IH tl_ok Cons.prems(3) by simp
  qed
qed

text \<open>
  C10. \<open>check_for_conflicts\<close> looks at the hash maps only: two registries with the
  same hash maps as the given two give the same result whatever their difficulty maps
  hold; and the result is true exactly when the two registries store equal hashes at
  every height that both hash maps hold, so in particular when they do and the
  difficulties stored at a common height differ.
\<close>

theorem check_for_conflicts_hash_only:
  "(\<forall>s' other'. m_points s' = m_points s \<and> m_points other' = m_points other \<longrightarrow>
      check_for_conflicts s' other' = check_for_conflicts s other) \<and>
   (map_sorted (m_points other) \<longrightarrow>
      check_for_conflicts s other =
        (\<forall>ht a b. map_of (m_points s) ht = Some a \<and> map_of (m_points other) ht = Some b
           \<longrightarrow> a = b))"
proof (intro conjI allI impI)
  fix s' other' :: checkpoints
  assume "m_points s' = m_points s \<and> m_points other' = m_points other"
  then show "check_for_conflicts s' other' = check_for_conflicts s other"
    by (simp add: check_for_conflicts_def)
next
  assume srt: "map_sorted (m_points other)"
  show "check_for_conflicts s other =
        (\<forall>ht a b. map_of (m_points s) ht = Some a \<and> map_of (m_points other) ht = Some b
           \<longrightarrow> a = b)"
  proof
    assume ok: "check_for_conflicts s other"
    show "\<forall>ht a b. map_of (m_points s) ht = Some a \<and> map_of (m_points other) ht = Some b
           \<longrightarrow> a = b"
    proof (intro allI impI)
      fix ht a b
      assume look: "map_of (m_points s) ht = Some a \<and> map_of (m_points other) ht = Some b"
      then have "(ht, b) \<in> set (m_points other)" by (simp add: map_of_SomeD)
      moreover have "check_for_conflicts_loop (m_points s) (m_points other)"
        using ok by (simp add: check_for_conflicts_def)
      ultimately show "a = b"
        using check_for_conflicts_loop_D [of "m_points s" "m_points other" "(ht, b)" a] look
        by simp
    qed
  next
    assume agree: "\<forall>ht a b. map_of (m_points s) ht = Some a \<and> map_of (m_points other) ht = Some b
           \<longrightarrow> a = b"
    have "check_for_conflicts_loop (m_points s) (m_points other)"
    proof (rule check_for_conflicts_loop_True)
      fix pt a
      assume "pt \<in> set (m_points other)" and a: "map_of (m_points s) (fst pt) = Some a"
      then have "map_of (m_points other) (fst pt) = Some (snd pt)"
        using map_sorted_lookup [OF srt] by simp
      with a agree show "a = snd pt" by blast
    qed
    then show "check_for_conflicts s other" by (simp add: check_for_conflicts_def)
  qed
qed

theorem check_for_conflicts_hash_only_witness:
  "check_for_conflicts
     \<lparr>m_points = [(50, replicate 32 1)], m_difficulty_points = [(50, 7)]\<rparr>
     \<lparr>m_points = [(50, replicate 32 1), (60, replicate 32 2)], m_difficulty_points = [(50, 9)]\<rparr> \<and>
   \<not> check_for_conflicts
     \<lparr>m_points = [(50, replicate 32 1)], m_difficulty_points = [(50, 7)]\<rparr>
     \<lparr>m_points = [(50, replicate 32 2)], m_difficulty_points = [(50, 7)]\<rparr> \<and>
   check_for_conflicts
     \<lparr>m_points = [(50, replicate 32 1)], m_difficulty_points = [(50, 7)]\<rparr>
     \<lparr>m_points = [(50, replicate 32 2)], m_difficulty_points = [(50, 7)]\<rparr> =
   check_for_conflicts
     \<lparr>m_points = [(50, replicate 32 1)], m_difficulty_points = []\<rparr>
     \<lparr>m_points = [(50, replicate 32 2)], m_difficulty_points = [(50, 8), (60, 1)]\<rparr>"
proof -
  let ?A = "\<lparr>m_points = [(50, replicate 32 1)], m_difficulty_points = [(50, 7)]\<rparr> :: checkpoints"
  let ?B = "\<lparr>m_points = [(50, replicate 32 1), (60, replicate 32 2)],
             m_difficulty_points = [(50, 9)]\<rparr> :: checkpoints"
  let ?C = "\<lparr>m_points = [(50, replicate 32 2)], m_difficulty_points = [(50, 7)]\<rparr> :: checkpoints"
  let ?A' = "\<lparr>m_points = [(50, replicate 32 1)], m_difficulty_points = []\<rparr> :: checkpoints"
  let ?C' = "\<lparr>m_points = [(50, replicate 32 2)],
              m_difficulty_points = [(50, 8), (60, 1)]\<rparr> :: checkpoints"
  have ne: "replicate 32 (1 :: 8 word) \<noteq> replicate 32 2"
  proof
    assume "replicate 32 (1 :: 8 word) = replicate 32 2"
    then have "hd (replicate 32 (1 :: 8 word)) = hd (replicate 32 (2 :: 8 word))"
      by (rule arg_cong)
    then show False by simp
  qed
  have srtB: "map_sorted (m_points ?B)" by (simp add: map_sorted_def)
  have srtC: "map_sorted (m_points ?C)" by (simp add: map_sorted_def)
  have agree: "\<forall>ht a b. map_of (m_points ?A) ht = Some a \<and> map_of (m_points ?B) ht = Some b
           \<longrightarrow> a = b"
    by (auto split: if_splits)
  have clash: "\<not> (\<forall>ht a b. map_of (m_points ?A) ht = Some a \<and> map_of (m_points ?C) ht = Some b
           \<longrightarrow> a = b)"
  proof
    assume "\<forall>ht a b. map_of (m_points ?A) ht = Some a \<and> map_of (m_points ?C) ht = Some b
           \<longrightarrow> a = b"
    then have "map_of (m_points ?A) 50 = Some (replicate 32 1) \<and>
               map_of (m_points ?C) 50 = Some (replicate 32 2)
               \<longrightarrow> replicate 32 (1 :: 8 word) = replicate 32 2"
      by blast
    with ne show False by simp
  qed
  from check_for_conflicts_hash_only [of ?A ?B] srtB agree
  have one: "check_for_conflicts ?A ?B" by blast
  from check_for_conflicts_hash_only [of ?A ?C] srtC clash
  have two: "\<not> check_for_conflicts ?A ?C" by blast
  from check_for_conflicts_hash_only [of ?A ?C]
  have "m_points ?A' = m_points ?A \<and> m_points ?C' = m_points ?C \<longrightarrow>
        check_for_conflicts ?A' ?C' = check_for_conflicts ?A ?C"
    by blast
  then have three: "check_for_conflicts ?A ?C = check_for_conflicts ?A' ?C'" by simp
  from one two three show ?thesis by blast
qed

subsection \<open>The default list\<close>

text \<open>
  C2, as the code has it. For every network kind, production included,
  \<open>init_default_checkpoints\<close> returns success and leaves the registry as it was: no
  \<open>add_checkpoint\<close> call is compiled into the function.
\<close>

theorem init_default_checkpoints_noop:
  "init_default_checkpoints nettype s = (True, s)"
  by (simp add: init_default_checkpoints_def)

text \<open>
  The claim as the spec words it fails for the production network: on the empty registry
  the call leaves no checkpoint to query, not even at height 1, the first height listed
  in the function's comments, although \<open>add_checkpoint\<close> on that line's hash would
  store one there.
\<close>

theorem init_default_checkpoints_mainnet_counterexample:
  "init_default_checkpoints MAINNET checkpoints_init = (True, checkpoints_init) \<and>
   map_of (m_points (snd (init_default_checkpoints MAINNET checkpoints_init))) 1 = None \<and>
   get_max_height (snd (init_default_checkpoints MAINNET checkpoints_init)) = 0 \<and>
   map_of (m_points (snd (add_checkpoint 1
      ''4636abd13b1b7b9258ff84bf1fde1a82e62c9e751daa94b3fcf7412e212a7198'' []
      checkpoints_init))) 1 \<noteq> None"
  by (simp add: init_default_checkpoints_def checkpoints_init_def get_max_height_def
      add_checkpoint_def hex_to_pod_def map_count_def)

subsection \<open>The loops as ordered insertion\<close>

lemma load_checkpoints_from_json_loop_eq:
  "load_checkpoints_from_json_loop prev ls s =
     add_checkpoints (map (\<lambda>l. (height l, hash l)) (filter (\<lambda>l. \<not> height l \<le> prev) ls)) s"
  by (induction ls arbitrary: s) (auto simp: Let_def ADD_CHECKPOINT_def split: prod.splits)

lemma str_find_None: "str_find c str = None \<longleftrightarrow> c \<notin> set str"
  by (simp add: str_find_def)

lemma str_find_Some:
  "str_find c str = Some pos \<Longrightarrow>
     c \<in> set str \<and> take pos str = takeWhile (\<lambda>x. x \<noteq> c) str \<and>
     drop (pos + 1) str = tl (dropWhile (\<lambda>x. x \<noteq> c) str)"
  by (auto simp: str_find_def takeWhile_eq_take [symmetric] dropWhile_eq_drop tl_drop drop_Suc
      split: if_splits)

lemma load_checkpoints_from_dns_loop_eq:
  "load_checkpoints_from_dns_loop records s =
     add_checkpoints (List.map_filter dns_record_read records) s"
proof (induction records arbitrary: s)
  case Nil
  then show ?case by (simp add: List.map_filter_simps)
next
  case (Cons rec records)
  show ?case
  proof (cases "str_find CHR '':'' rec")
    case None
    then have "dns_record_read rec = None"
      by (simp add: dns_record_read_def str_find_None)
    then show ?thesis using None Cons.IH by (simp add: List.map_filter_simps)
  next
    case (Some pos)
    note parts = str_find_Some [OF Some]
    show ?thesis
    proof (cases "dns_record_read rec")
      case None
      then show ?thesis using Some parts Cons.IH
        by (auto simp: dns_record_read_def List.map_filter_simps Let_def
            split: option.splits)
    next
      case parsed: (Some p)
      then show ?thesis using Some parts Cons.IH
        by (auto simp: dns_record_read_def List.map_filter_simps Let_def ADD_CHECKPOINT_def
            split: option.splits prod.splits)
    qed
  qed
qed

lemma load_checkpoints_from_json_registry_le:
  "load_checkpoints_from_json fs path s = (r, s') \<Longrightarrow> registry_le s s'"
  by (auto simp: load_checkpoints_from_json_def load_checkpoints_from_json_loop_eq
      registry_le_refl split: json_hashfile.splits intro: add_checkpoints_registry_le)

lemma load_checkpoints_from_dns_registry_le:
  "load_checkpoints_from_dns dns nettype s = (r, s') \<Longrightarrow> registry_le s s'"
  by (auto simp: load_checkpoints_from_dns_def load_checkpoints_from_dns_loop_eq
      registry_le_refl split: option.splits intro: add_checkpoints_registry_le)

lemma load_checkpoints_from_json_wf:
  "load_checkpoints_from_json fs path s = (r, s') \<Longrightarrow> checkpoints_wf s \<Longrightarrow> checkpoints_wf s'"
  by (auto simp: load_checkpoints_from_json_def load_checkpoints_from_json_loop_eq
      split: json_hashfile.splits intro: add_checkpoints_wf)

lemma load_checkpoints_from_dns_wf:
  "load_checkpoints_from_dns dns nettype s = (r, s') \<Longrightarrow> checkpoints_wf s \<Longrightarrow> checkpoints_wf s'"
  by (auto simp: load_checkpoints_from_dns_def load_checkpoints_from_dns_loop_eq
      split: option.splits intro: add_checkpoints_wf)

lemma run_operation_wf:
  assumes "run_operation fs dns opn s = (r, s')" and "checkpoints_wf s"
  shows "checkpoints_wf s'"
proof (cases opn)
  case (Add_checkpoint ht hs ds)
  then show ?thesis using assms by (auto intro: add_checkpoint_wf)
next
  case (Init_default_checkpoints nettype)
  then show ?thesis using assms
    by (auto simp: init_default_checkpoints_def split: if_splits)
next
  case (Load_checkpoints_from_json path)
  then show ?thesis using assms by (auto intro: load_checkpoints_from_json_wf)
next
  case (Load_checkpoints_from_dns nettype)
  then show ?thesis using assms by (auto intro: load_checkpoints_from_dns_wf)
next
  case (Load_new_checkpoints path nettype use_dns)
  obtain r1 s1 where j: "load_checkpoints_from_json fs path s = (r1, s1)"
    by (cases "load_checkpoints_from_json fs path s")
  then have wf1: "checkpoints_wf s1" using assms(2) by (rule load_checkpoints_from_json_wf)
  obtain r2 s2 where d: "load_checkpoints_from_dns dns nettype s1 = (r2, s2)"
    by (cases "load_checkpoints_from_dns dns nettype s1")
  then have wf2: "checkpoints_wf s2" using wf1 by (rule load_checkpoints_from_dns_wf)
  show ?thesis using Load_new_checkpoints assms(1) j d wf1 wf2
    by (cases use_dns) (auto simp: load_new_checkpoints_def)
qed

lemma run_operation_registry_le:
  assumes "run_operation fs dns opn s = (r, s')"
  shows "registry_le s s'"
proof (cases opn)
  case (Add_checkpoint ht hs ds)
  then show ?thesis using assms by (auto intro: add_checkpoint_registry_le)
next
  case (Init_default_checkpoints nettype)
  then show ?thesis using assms
    by (auto simp: init_default_checkpoints_def registry_le_refl split: if_splits)
next
  case (Load_checkpoints_from_json path)
  then show ?thesis using assms
    by (auto intro: load_checkpoints_from_json_registry_le)
next
  case (Load_checkpoints_from_dns nettype)
  then show ?thesis using assms
    by (auto intro: load_checkpoints_from_dns_registry_le)
next
  case (Load_new_checkpoints path nettype use_dns)
  obtain r1 s1 where j: "load_checkpoints_from_json fs path s = (r1, s1)"
    by (cases "load_checkpoints_from_json fs path s")
  then have le1: "registry_le s s1"
    by (auto intro: load_checkpoints_from_json_registry_le)
  show ?thesis
  proof (cases use_dns)
    case False
    then show ?thesis using Load_new_checkpoints assms j le1
      by (simp add: load_new_checkpoints_def)
  next
    case True
    obtain r2 s2 where d: "load_checkpoints_from_dns dns nettype s1 = (r2, s2)"
      by (cases "load_checkpoints_from_dns dns nettype s1")
    then have le2: "registry_le s1 s2"
      by (auto intro: load_checkpoints_from_dns_registry_le)
    have "s' = s2" using Load_new_checkpoints assms j d True
      by (simp add: load_new_checkpoints_def)
    then show ?thesis using registry_le_trans [OF le1 le2] by simp
  qed
qed

subsection \<open>Loading from a file\<close>

text \<open>
  C9. \<open>load_checkpoints_from_json\<close> reads the maximum checkpoint height once, before
  the first record; a record is skipped exactly when its height is at most that maximum,
  which records added during the load do not change; the other records go to
  \<open>add_checkpoint\<close> in file order, and the first insertion that fails makes the
  whole call fail. A missing file is a success, a malformed one a failure, both without
  effect.
\<close>

theorem load_checkpoints_from_json_spec:
  "load_checkpoints_from_json fs path s =
     (case fs path of
        File_missing \<Rightarrow> (True, s)
      | File_malformed \<Rightarrow> (False, s)
      | File_json hashes \<Rightarrow>
          add_checkpoints
            (map (\<lambda>l. (height l, hash l))
               (filter (\<lambda>l. \<not> height l \<le> get_max_height s) (hashlines hashes))) s)"
  by (simp add: load_checkpoints_from_json_def load_checkpoints_from_json_loop_eq
      split: json_hashfile.splits)

theorem load_checkpoints_from_json_spec_witness:
  "fst (load_checkpoints_from_json
     (\<lambda>_. File_json \<lparr>hashlines =
        [\<lparr>height = 50, hash = ''3e79b719c2b779f68cf2fcd2d787f875b719435f08540765c3484e66e3604b92''\<rparr>,
         \<lparr>height = 150, hash = ''3e79b719c2b779f68cf2fcd2d787f875b719435f08540765c3484e66e3604b92''\<rparr>,
         \<lparr>height = 120, hash = ''0fe3a760d2ae216b25a0b4ebfe189e794d7e54cac208911b3965d6604a793149''\<rparr>]\<rparr>)
     ''checkpoints.json''
     \<lparr>m_points = [(100, replicate 32 0)], m_difficulty_points = []\<rparr>) = True \<and>
   map fst (m_points (snd (load_checkpoints_from_json
     (\<lambda>_. File_json \<lparr>hashlines =
        [\<lparr>height = 50, hash = ''3e79b719c2b779f68cf2fcd2d787f875b719435f08540765c3484e66e3604b92''\<rparr>,
         \<lparr>height = 150, hash = ''3e79b719c2b779f68cf2fcd2d787f875b719435f08540765c3484e66e3604b92''\<rparr>,
         \<lparr>height = 120, hash = ''0fe3a760d2ae216b25a0b4ebfe189e794d7e54cac208911b3965d6604a793149''\<rparr>]\<rparr>)
     ''checkpoints.json''
     \<lparr>m_points = [(100, replicate 32 0)], m_difficulty_points = []\<rparr>))) = [100, 120, 150]"
  by (simp add: load_checkpoints_from_json_spec get_max_height_def add_checkpoint_def
      hex_to_pod_def map_count_def)

subsection \<open>Loading from DNS\<close>



















subsection \<open>The registry only grows\<close>

text \<open>
  C6. Whatever operation runs, and whether it succeeds or fails, every (height, hash)
  entry and every (height, difficulty) entry of the registry before it is an entry of the
  registry after it, with the same value.
\<close>

theorem registry_only_grows:
  assumes "run_operation fs dns opn s = (r, s')"
  shows "(\<forall>ht h. map_of (m_points s) ht = Some h \<longrightarrow> map_of (m_points s') ht = Some h) \<and>
         (\<forall>ht d. map_of (m_difficulty_points s) ht = Some d \<longrightarrow>
                  map_of (m_difficulty_points s') ht = Some d)"
  using run_operation_registry_le [OF assms]
  by (auto simp: registry_le_def map_le_def dom_def)

theorem registry_only_grows_witness:
  "run_operation (\<lambda>_. File_missing) (\<lambda>_. None)
     (Add_checkpoint 1 ''4636abd13b1b7b9258ff84bf1fde1a82e62c9e751daa94b3fcf7412e212a7198'' ''abc'')
     \<lparr>m_points = [(5, replicate 32 0)], m_difficulty_points = [(5, 3)]\<rparr> =
   (False, \<lparr>m_points = [(1, [70, 54, 171, 209, 59, 27, 123, 146, 88, 255,
        132, 191, 31, 222, 26, 130, 230, 44, 158, 117, 29, 170, 148, 179, 252, 247, 65, 46, 33,
        42, 113, 152]), (5, replicate 32 0)], m_difficulty_points = [(5, 3)]\<rparr>) \<and>
   map_of [(1, [70, 54, 171, 209, 59, 27, 123, 146, 88, 255,
        132, 191, 31, 222, 26, 130, 230, 44, 158, 117, 29, 170, 148, 179, 252, 247, 65, 46, 33,
        42, 113, 152]), (5 :: 64 word, replicate 32 (0 :: 8 word))] 5 = Some (replicate 32 0) \<and>
   map_of [(5 :: 64 word, 3 :: difficulty_type)] 5 = Some 3"
proof -
  let ?s = "\<lparr>m_points = [(5, replicate 32 0)], m_difficulty_points = [(5, 3)]\<rparr> :: checkpoints"
  let ?s' = "\<lparr>m_points = [(1, [70, 54, 171, 209, 59, 27, 123, 146, 88, 255,
        132, 191, 31, 222, 26, 130, 230, 44, 158, 117, 29, 170, 148, 179, 252, 247, 65, 46, 33,
        42, 113, 152]), (5, replicate 32 0)], m_difficulty_points = [(5, 3)]\<rparr> :: checkpoints"
  have run: "run_operation (\<lambda>_. File_missing) (\<lambda>_. None)
     (Add_checkpoint 1 ''4636abd13b1b7b9258ff84bf1fde1a82e62c9e751daa94b3fcf7412e212a7198'' ''abc'')
     ?s = (False, ?s')"
    by (simp add: add_checkpoint_def hex_to_pod_def map_count_def difficulty_of_string_def)
  have before: "map_of (m_points ?s) 5 = Some (replicate 32 0)" by simp
  have before_d: "map_of (m_difficulty_points ?s) 5 = Some 3" by simp
  from registry_only_grows [OF run] before
  have after: "map_of (m_points ?s') 5 = Some (replicate 32 0)" by blast
  from registry_only_grows [OF run] before_d
  have "map_of (m_difficulty_points ?s') 5 = Some 3" by blast
  with run after show ?thesis by simp
qed

end
